theory Spec2Isabelle
  imports Main "HOL-Library.Multiset"
begin

section \<open>JavaScript values and strings\<close>

text \<open>
  The scraper \<^verbatim>\<open>xf-scraper.js\<close> is a Node program. The values it moves between the
  parsed page, its own objects and the database are JavaScript values; only the kinds the
  program produces are modelled. A \<open>Date\<close> is its time value in milliseconds of local
  time, \<open>None\<close> being the invalid date. Numbers are integers: the precision of doubles is
  not modelled.
\<close>

datatype jsval =
    JUndefined
  | JNull
  | JNum int
  | JNaN
  | JStr string
  | JDate "int option"

datatype error =
    TypeError string
  | RangeError string
  | NeedleError
  | SqliteError

text \<open>Truthiness, as the conditions \<^verbatim>\<open>x || y\<close> and \<^verbatim>\<open>if (x)\<close> read it.\<close>

fun truthy :: "jsval \<Rightarrow> bool" where
  "truthy JUndefined = False"
| "truthy JNull = False"
| "truthy (JNum n) = (n \<noteq> 0)"
| "truthy JNaN = False"
| "truthy (JStr s) = (s \<noteq> [])"
| "truthy (JDate d) = True"

text \<open>Strict equality \<^verbatim>\<open>===\<close>: \<open>NaN\<close> equals nothing, dates compare by identity.\<close>

fun strict_eq :: "jsval \<Rightarrow> jsval \<Rightarrow> bool" where
  "strict_eq JNaN _ = False"
| "strict_eq _ JNaN = False"
| "strict_eq (JDate _) _ = False"
| "strict_eq _ (JDate _) = False"
| "strict_eq a b = (a = b)"

definition digit_chars :: string where
  "digit_chars = ''0123456789''"

fun string_of_nat :: "nat \<Rightarrow> string" where
  "string_of_nat n =
     (if n < 10 then [digit_chars ! n]
      else string_of_nat (n div 10) @ [digit_chars ! (n mod 10)])"

text \<open>The decimal text of an integer, as \<^verbatim>\<open>'page-' + this.page\<close> appends it.\<close>

definition string_of_int :: "int \<Rightarrow> string" where
  "string_of_int i = (if i < 0 then CHR ''-'' # string_of_nat (nat (- i)) else string_of_nat (nat i))"

text \<open>An attribute that is missing reads \<open>undefined\<close>, and \<^verbatim>\<open>'...' + undefined\<close> appends that word.\<close>

definition str_or_undefined :: "string option \<Rightarrow> string" where
  "str_or_undefined a = (case a of None \<Rightarrow> ''undefined'' | Some s \<Rightarrow> s)"

definition is_digit :: "char \<Rightarrow> bool" where
  "is_digit c = (c \<in> set digit_chars)"

definition is_word_char :: "char \<Rightarrow> bool" where
  "is_word_char c =
     (c \<in> set (''abcdefghijklmnopqrstuvwxyz'' @ ''ABCDEFGHIJKLMNOPQRSTUVWXYZ'' @ digit_chars @ ''_''))"

text \<open>The white space that \<open>parseInt\<close> skips (the ASCII part of it).\<close>

definition is_js_space :: "char \<Rightarrow> bool" where
  "is_js_space c = (c \<in> {CHR 0x09, CHR 0x0A, CHR 0x0B, CHR 0x0C, CHR 0x0D, CHR '' ''})"

text \<open>The value of a digit is its position in \<open>digit_chars\<close>.\<close>

definition digit_val :: "char \<Rightarrow> nat" where
  "digit_val c = length (takeWhile (\<lambda>d. d \<noteq> c) digit_chars)"

definition digits_val :: "string \<Rightarrow> nat" where
  "digits_val ds = foldl (\<lambda>acc c. 10 * acc + digit_val c) 0 ds"

text \<open>
  \<^verbatim>\<open>parseInt(s, 10)\<close> on a string: leading white space is skipped, one sign is read,
  then the longest run of decimal digits; with no digit the result is \<open>NaN\<close>.
\<close>

definition parseInt_str :: "string \<Rightarrow> jsval" where
  "parseInt_str s =
     (let t = dropWhile is_js_space s;
          neg = (t \<noteq> [] \<and> hd t = CHR ''-'');
          u = (if t \<noteq> [] \<and> (hd t = CHR ''-'' \<or> hd t = CHR ''+'') then tl t else t);
          z = takeWhile is_digit u
      in if z = [] then JNaN
         else JNum ((if neg then - 1 else 1) * int (digits_val z)))"

text \<open>\<open>parseInt\<close> first turns its argument into a string; the program passes a string or the number \<open>0\<close>.\<close>

fun parseInt :: "jsval \<Rightarrow> jsval" where
  "parseInt (JStr s) = parseInt_str s"
| "parseInt (JNum n) = parseInt_str (string_of_int n)"
| "parseInt JUndefined = JNaN"
| "parseInt JNull = JNaN"
| "parseInt JNaN = JNaN"
| "parseInt (JDate d) = JNaN"

text \<open>\<^verbatim>\<open>s.replace('#', '')\<close>: the first occurrence of the character is removed.\<close>

fun replace_first :: "char \<Rightarrow> string \<Rightarrow> string" where
  "replace_first x [] = []"
| "replace_first x (c # cs) = (if c = x then cs else c # replace_first x cs)"

text \<open>\<^verbatim>\<open>s.split(sep)\<close> for a separator that is not empty.\<close>

function split_from :: "string \<Rightarrow> string \<Rightarrow> string \<Rightarrow> string list" where
  "split_from sep cur [] = [rev cur]"
| "split_from sep cur (c # cs) =
     (if sep \<noteq> [] \<and> take (length sep) (c # cs) = sep
      then rev cur # split_from sep [] (drop (length sep) (c # cs))
      else split_from sep (c # cur) cs)"
  by pat_completeness auto
termination
  by (relation "measure (\<lambda>(sep, cur, s). length s)") auto

definition split :: "string \<Rightarrow> string \<Rightarrow> string list" where
  "split sep s = split_from sep [] s"

text \<open>Reading an array element: an index past the end reads \<open>undefined\<close>.\<close>

definition elem :: "'a list \<Rightarrow> nat \<Rightarrow> 'a option" where
  "elem xs i = (if i < length xs then Some (xs ! i) else None)"

section \<open>The time pattern and the date of a post\<close>

text \<open>
  \<^verbatim>\<open>rawDate[1].match(/(\d+):(\d+) (\w+)/)\<close>. Each of the three groups is greedy and is
  followed by a character outside its class (or by the end of the pattern), so a match that
  starts at a given position takes the whole run of digits or word characters there.
  \<open>match_here\<close> is the match anchored at the head of the string, \<open>time_match\<close> the
  leftmost one.
\<close>

definition match_here :: "string \<Rightarrow> (string \<times> string \<times> string) option" where
  "match_here s =
     (let h = takeWhile is_digit s; r1 = dropWhile is_digit s in
      if h = [] \<or> r1 = [] \<or> hd r1 \<noteq> CHR '':'' then None
      else
        let m = takeWhile is_digit (tl r1); r2 = dropWhile is_digit (tl r1) in
        if m = [] \<or> r2 = [] \<or> hd r2 \<noteq> CHR '' '' then None
        else
          let w = takeWhile is_word_char (tl r2) in
          if w = [] then None else Some (h, m, w))"

fun time_match :: "string \<Rightarrow> (string \<times> string \<times> string) option" where
  "time_match [] = None"
| "time_match (c # cs) =
     (case match_here (c # cs) of Some r \<Rightarrow> Some r | None \<Rightarrow> time_match cs)"

text \<open>\<^verbatim>\<open>/am/i.test(w)\<close>: the word holds an \<open>a\<close> followed by an \<open>m\<close>, in either case.\<close>

fun test_am :: "string \<Rightarrow> bool" where
  "test_am (a # m # cs) =
     (((a = CHR ''a'' \<or> a = CHR ''A'') \<and> (m = CHR ''m'' \<or> m = CHR ''M'')) \<or> test_am (m # cs))"
| "test_am _ = False"

text \<open>
  The fields of a time value and the two setters the program calls, after the ECMAScript
  definitions (\<open>Day\<close>, \<open>HourFromTime\<close>, \<open>MakeTime\<close>, \<open>MakeDate\<close>). The time value is local
  time; a change of the offset to UTC between two dates is not modelled.
\<close>

definition msPerMinute :: int where "msPerMinute = 60000"
definition msPerHour :: int where "msPerHour = 3600000"
definition msPerDay :: int where "msPerDay = 86400000"

definition Day :: "int \<Rightarrow> int" where "Day t = t div msPerDay"
definition HourFromTime :: "int \<Rightarrow> int" where "HourFromTime t = (t div msPerHour) mod 24"
definition MinFromTime :: "int \<Rightarrow> int" where "MinFromTime t = (t div msPerMinute) mod 60"
definition SecFromTime :: "int \<Rightarrow> int" where "SecFromTime t = (t div 1000) mod 60"
definition msFromTime :: "int \<Rightarrow> int" where "msFromTime t = t mod 1000"

definition MakeTime :: "int \<Rightarrow> int \<Rightarrow> int \<Rightarrow> int \<Rightarrow> int" where
  "MakeTime h m s ms = h * msPerHour + m * msPerMinute + s * 1000 + ms"

definition MakeDate :: "int \<Rightarrow> int \<Rightarrow> int" where
  "MakeDate d tm = d * msPerDay + tm"

text \<open>\<open>date.setHours(h)\<close> and \<open>date.setMinutes(m)\<close>; a \<open>NaN\<close> argument or an invalid date gives the invalid date.\<close>

fun setHours :: "int option \<Rightarrow> jsval \<Rightarrow> int option" where
  "setHours (Some t) (JNum h) =
     Some (MakeDate (Day t) (MakeTime h (MinFromTime t) (SecFromTime t) (msFromTime t)))"
| "setHours _ _ = None"

fun setMinutes :: "int option \<Rightarrow> jsval \<Rightarrow> int option" where
  "setMinutes (Some t) (JNum m) =
     Some (MakeDate (Day t) (MakeTime (HourFromTime t) m (SecFromTime t) (msFromTime t)))"
| "setMinutes _ _ = None"



text \<open>Number addition, where it meets \<open>NaN\<close>.\<close>

fun num_add :: "jsval \<Rightarrow> int \<Rightarrow> jsval" where
  "num_add (JNum a) b = JNum (a + b)"
| "num_add _ b = JNaN"

section \<open>The parsed page\<close>

text \<open>
  The program reads a fetched page through cheerio selectors. A page is modelled by what
  those selectors return: the thread links of a forum page, the message blocks of a thread
  page, and the \<open>last\<close> datum of the page navigation (\<open>JUndefined\<close> when the page has
  none; cheerio turns a numeric attribute text into a number).
\<close>

record message =
  rating_text :: string
  datestring :: "string option"
  timestring :: "string option"
  datetime_title :: "string option"
  permalink_href :: "string option"
  data_author :: jsval
  blockquote_html :: "string option"
  postNumber_text :: string

record listing =
  href :: "string option"
  link_text :: string

record document =
  discussionListItems :: "listing list"
  messages :: "message list"
  pageNav_last :: jsval

text \<open>
  The two date strings of a message: the \<open>datestring\<close> and \<open>timestring\<close> data when the
  first is truthy, else the \<open>title\<close> attribute split at \<open>' at '\<close>; a missing title makes
  \<open>split\<close> fail.
\<close>

definition rawDate :: "message \<Rightarrow> error + string option list" where
  "rawDate m =
     (if (case datestring m of None \<Rightarrow> False | Some s \<Rightarrow> s \<noteq> [])
      then Inr [datestring m, timestring m]
      else case datetime_title m of
             None \<Rightarrow> Inl (TypeError ''Cannot read property split of undefined'')
           | Some t \<Rightarrow> Inr (map Some (split '' at '' t)))"

definition raw_at :: "string option list \<Rightarrow> nat \<Rightarrow> string option" where
  "raw_at r i = (case elem r i of None \<Rightarrow> None | Some v \<Rightarrow> v)"

text \<open>\<open>new Date(s)\<close>: the parser of date text belongs to the runtime and is a parameter.\<close>

definition Date_new :: "(string \<Rightarrow> int option) \<Rightarrow> string option \<Rightarrow> int option" where
  "Date_new parse v = (case v of None \<Rightarrow> None | Some s \<Rightarrow> parse s)"

text \<open>The hour the program passes to \<open>setHours\<close>: twelve is added unless the word holds \<open>am\<close>.\<close>

definition hour24 :: "string \<Rightarrow> string \<Rightarrow> jsval" where
  "hour24 h w = num_add (parseInt (JStr h)) (if test_am w then 0 else 12)"

definition scrape_date :: "(string \<Rightarrow> int option) \<Rightarrow> message \<Rightarrow> error + int option" where
  "scrape_date parse m =
     (case rawDate m of
        Inl e \<Rightarrow> Inl e
      | Inr r \<Rightarrow>
          let date = Date_new parse (raw_at r 0) in
          case raw_at r 1 of
            None \<Rightarrow> Inl (TypeError ''Cannot read property match of undefined'')
          | Some tp \<Rightarrow>
              (case time_match tp of
                 None \<Rightarrow> Inl (TypeError ''Cannot read property 1 of null'')
               | Some (h, mi, w) \<Rightarrow>
                   Inr (setMinutes (setHours date (hour24 h w)) (parseInt (JStr mi)))))"

text \<open>The object the first \<open>map\<close> of \<open>XFThread.prototype.scrape\<close> returns for a message.\<close>

record post_data =
  pd_permalink :: "string option"
  pd_author :: jsval
  pd_date :: "int option"
  pd_content :: "string option"
  pd_likes :: jsval
  pd_number :: jsval

definition scrape_likes :: "string \<Rightarrow> jsval" where
  "scrape_likes likes = parseInt (if likes \<noteq> [] then JStr likes else JNum 0)"

definition scrape_number :: "string \<Rightarrow> jsval" where
  "scrape_number label = parseInt (JStr (replace_first (CHR ''#'') label))"

definition scrape_message :: "(string \<Rightarrow> int option) \<Rightarrow> message \<Rightarrow> error + post_data" where
  "scrape_message parse m =
     (case scrape_date parse m of
        Inl e \<Rightarrow> Inl e
      | Inr d \<Rightarrow>
          Inr \<lparr>pd_permalink = permalink_href m,
               pd_author = data_author m,
               pd_date = d,
               pd_content = blockquote_html m,
               pd_likes = scrape_likes (rating_text m),
               pd_number = scrape_number (postNumber_text m)\<rparr>)"

text \<open>Mapping over the messages stops at the first one that throws.\<close>

fun scrape_messages :: "(string \<Rightarrow> int option) \<Rightarrow> message list \<Rightarrow> error + post_data list" where
  "scrape_messages parse [] = Inr []"
| "scrape_messages parse (m # ms) =
     (case scrape_message parse m of
        Inl e \<Rightarrow> Inl e
      | Inr d \<Rightarrow>
          (case scrape_messages parse ms of
             Inl e \<Rightarrow> Inl e
           | Inr ds \<Rightarrow> Inr (d # ds)))"

section \<open>Objects, prototypes and the database\<close>

text \<open>
  An \<open>XFPost\<close> is the list of the properties its constructor assigns; reading a property
  that was never assigned gives \<open>undefined\<close>.
\<close>

type_synonym props = "(string \<times> jsval) list"

definition get :: "props \<Rightarrow> string \<Rightarrow> jsval" where
  "get obj k = (case map_of obj k of None \<Rightarrow> JUndefined | Some v \<Rightarrow> v)"

definition html_val :: "string option \<Rightarrow> jsval" where
  "html_val h = (case h of None \<Rightarrow> JNull | Some s \<Rightarrow> JStr s)"

record post_options =
  po_title :: jsval
  po_url :: string
  po_guid :: string
  po_author :: jsval
  po_date :: "int option"
  po_description :: "string option"
  po_likes :: jsval
  po_number :: jsval

definition XFPost_new :: "post_options \<Rightarrow> props" where
  "XFPost_new options =
     [(''title'', po_title options),
      (''description'', html_val (po_description options)),
      (''date'', JDate (po_date options)),
      (''link'', JStr (po_url options)),
      (''guid'', JStr (po_guid options)),
      (''author'', po_author options),
      (''likes'', po_likes options)]"

datatype cls = XFPage | XFPost | XFThread | XFForum

text \<open>\<open>util.inherits(XFThread, XFPage)\<close> and \<open>util.inherits(XFForum, XFPage)\<close>.\<close>

fun super_of :: "cls \<Rightarrow> cls option" where
  "super_of XFThread = Some XFPage"
| "super_of XFForum = Some XFPage"
| "super_of _ = None"

text \<open>
  The program assigns a function to the property \<open>_persistData\<close> of a prototype twice, and
  both times the prototype is that of \<open>XFPost\<close>: first the insertion into \<open>posts\<close>,
  then the insertion into \<open>threads\<close>. A later assignment replaces an earlier one.
\<close>

datatype persist_body = Insert_post | Insert_thread

definition persistData_assignments :: "(cls \<times> persist_body) list" where
  "persistData_assignments = [(XFPost, Insert_post), (XFPost, Insert_thread)]"

definition own_persistData :: "cls \<Rightarrow> persist_body option" where
  "own_persistData c =
     (case filter (\<lambda>a. fst a = c) persistData_assignments of
        [] \<Rightarrow> None
      | a # as \<Rightarrow> Some (snd (last (a # as))))"

text \<open>Property lookup follows the prototype chain, which is at most two classes long.\<close>

definition lookup_persistData :: "cls \<Rightarrow> persist_body option" where
  "lookup_persistData c =
     (case own_persistData c of
        Some b \<Rightarrow> Some b
      | None \<Rightarrow> (case super_of c of None \<Rightarrow> None | Some s \<Rightarrow> own_persistData s))"

section \<open>Promises and the environment\<close>

text \<open>
  What the program does to the outside is a list of events, in the order they happen:
  the progress line of \<open>archive\<close>, a request, a statement given to the database, and the
  completion of the archival of the item with a given index of the current page.
\<close>

datatype event =
    Archiving cls string "int option"
  | Get string
  | DbRun string props
  | ItemDone nat "error option"

text \<open>
  A call either throws, or returns a promise that is fulfilled or rejected later.
  \<open>OutOfFuel\<close> says that the events were followed only up to the bound on the number of
  nested \<open>archive\<close> calls.
\<close>

datatype settle = Fulfilled | Rejected error | Threw error | OutOfFuel

record outcome =
  events :: "event list"
  settled :: settle

text \<open>
  The outside: the page behind a URL (\<open>None\<close> when the request fails), the answer of the
  database to a statement, the runtime's date parser and ISO formatter, and the time each
  item of a page takes to complete, which fixes the order of completion.
\<close>

record env =
  needle_get :: "string \<Rightarrow> document option"
  db_run :: "string \<Rightarrow> props \<Rightarrow> error option"
  Date_parse :: "string \<Rightarrow> int option"
  toISOString :: "int \<Rightarrow> string"
  latency :: "string \<Rightarrow> nat \<Rightarrow> nat"

definition resolve :: outcome where
  "resolve = \<lparr>events = [], settled = Fulfilled\<rparr>"

definition throw :: "error \<Rightarrow> outcome" where
  "throw e = \<lparr>events = [], settled = Threw e\<rparr>"

text \<open>
  \<open>p.then(f)\<close>: the handler runs once \<open>p\<close> is fulfilled, and what it throws rejects the
  result. When the call that should give \<open>p\<close> threw, nothing is chained.
\<close>

definition then_p :: "outcome \<Rightarrow> outcome \<Rightarrow> outcome" where
  "then_p p q =
     (case settled p of
        Fulfilled \<Rightarrow>
          \<lparr>events = events p @ events q,
           settled = (case settled q of Threw e \<Rightarrow> Rejected e | s \<Rightarrow> s)\<rparr>
      | _ \<Rightarrow> p)"

fun is_Threw :: "settle \<Rightarrow> bool" where
  "is_Threw (Threw e) = True"
| "is_Threw _ = False"

fun error_of :: "settle \<Rightarrow> error option" where
  "error_of (Rejected e) = Some e"
| "error_of (Threw e) = Some e"
| "error_of _ = None"

text \<open>
  \<open>BPromise.map(items, mapper)\<close>, given the outcomes of the mapper on the items. The
  mapper is called on the items in array order; a call that throws rejects the result and
  no later item is started. Otherwise every item is started, the items complete in the
  order of their latencies, and the result is fulfilled when all are, or rejected with the
  error of the first item to fail.
\<close>

definition completion_order :: "(nat \<Rightarrow> nat) \<Rightarrow> nat \<Rightarrow> nat list" where
  "completion_order lat n = sort_key lat [0..<n]"

definition first_failure :: "outcome list \<Rightarrow> nat list \<Rightarrow> settle" where
  "first_failure outs order =
     (case filter (\<lambda>i. settled (outs ! i) \<noteq> Fulfilled) order of
        [] \<Rightarrow> Fulfilled
      | i # _ \<Rightarrow> settled (outs ! i))"

definition BPromise_map :: "(nat \<Rightarrow> nat) \<Rightarrow> outcome list \<Rightarrow> outcome" where
  "BPromise_map lat outs =
     (case dropWhile (\<lambda>p. \<not> is_Threw (settled p)) outs of
        p # _ \<Rightarrow>
          \<lparr>events = concat (map events (takeWhile (\<lambda>p. \<not> is_Threw (settled p)) outs)) @ events p,
           settled = (case settled p of Threw e \<Rightarrow> Rejected e | s \<Rightarrow> s)\<rparr>
      | [] \<Rightarrow>
          if OutOfFuel \<in> set (map settled outs)
          then \<lparr>events = concat (map events outs), settled = OutOfFuel\<rparr>
          else
            let order = completion_order lat (length outs) in
            \<lparr>events = concat (map events outs)
                       @ map (\<lambda>i. ItemDone i (error_of (settled (outs ! i)))) order,
             settled = first_failure outs order\<rparr>)"

text \<open>\<open>db.runAsync(sql, params)\<close>.\<close>

definition db_runAsync :: "env \<Rightarrow> string \<Rightarrow> props \<Rightarrow> outcome" where
  "db_runAsync e sql params =
     \<lparr>events = [DbRun sql params],
      settled = (case db_run e sql params of None \<Rightarrow> Fulfilled | Some err \<Rightarrow> Rejected err)\<rparr>"

definition sql_posts :: string where
  "sql_posts = ''INSERT INTO posts '' @
     ''(title, description, date, link, guid, author, number, likes) '' @
     ''VALUES ($title, $desc, $date, $link, $guid, $author, $num, $likes);''"

definition sql_threads :: string where
  "sql_threads = ''INSERT INTO threads (title, url) VALUES ($title, $url);''"

text \<open>
  The two function bodies assigned to \<open>_persistData\<close>, run on an object \<open>this\<close>.
  \<open>this.date.toISOString()\<close> fails on a value that is no date and on the invalid date.
\<close>

fun persistData :: "persist_body \<Rightarrow> env \<Rightarrow> props \<Rightarrow> outcome" where
  "persistData Insert_post e this =
     (case get this ''date'' of
        JDate (Some t) \<Rightarrow>
          db_runAsync e sql_posts
            [(''$title'', get this ''title''),
             (''$desc'', get this ''description''),
             (''$date'', JStr (toISOString e t)),
             (''$link'', get this ''link''),
             (''$guid'', get this ''guid''),
             (''$author'', get this ''author''),
             (''$num'', get this ''number''),
             (''$likes'', get this ''likes'')]
      | JDate None \<Rightarrow> throw (RangeError ''Invalid time value'')
      | _ \<Rightarrow> throw (TypeError ''Cannot read property toISOString of undefined''))"
| "persistData Insert_thread e this =
     db_runAsync e sql_threads
       [(''$title'', get this ''title''),
        (''$url'', get this ''url'')]"

text \<open>\<open>XFPost.prototype.archive\<close>: \<open>return this._persistData()\<close>.\<close>

definition XFPost_archive :: "env \<Rightarrow> props \<Rightarrow> outcome" where
  "XFPost_archive e this =
     (case lookup_persistData XFPost of
        None \<Rightarrow> throw (TypeError ''this._persistData is not a function'')
      | Some body \<Rightarrow> persistData body e this)"

section \<open>Pages, threads and forums\<close>

text \<open>
  An \<open>XFPage\<close> object, with the constructor that made it and the title an \<open>XFThread\<close>
  adds. \<open>page\<close> is \<open>None\<close> once the program has set it to \<open>null\<close>. The database handle
  and the request options are the same for every object and are left to the environment;
  the three counters of the final statistics are not modelled.
\<close>

record page_obj =
  cls :: cls
  baseUrl :: string
  url :: string
  page :: "int option"
  title :: jsval

record page_options =
  opt_baseUrl :: string
  opt_path :: "string option"
  opt_page :: "int option"
  opt_title :: jsval

text \<open>\<open>this.page = options.page || 1\<close>: a missing page and the page \<open>0\<close> both give \<open>1\<close>.\<close>

definition start_page :: "int option \<Rightarrow> int" where
  "start_page p = (case p of None \<Rightarrow> 1 | Some n \<Rightarrow> if n = 0 then 1 else n)"

definition XFPage_new :: "cls \<Rightarrow> page_options \<Rightarrow> page_obj" where
  "XFPage_new c options =
     \<lparr>cls = c,
      baseUrl = opt_baseUrl options,
      url = opt_baseUrl options @ str_or_undefined (opt_path options),
      page = Some (start_page (opt_page options)),
      title = JUndefined\<rparr>"

definition XFThread_new :: "page_options \<Rightarrow> page_obj" where
  "XFThread_new options = (XFPage_new XFThread options)\<lparr>title := opt_title options\<rparr>"

definition XFForum_new :: "page_options \<Rightarrow> page_obj" where
  "XFForum_new options = XFPage_new XFForum options"

text \<open>The properties of a page object, for a function body that reads them by name.\<close>

definition page_props :: "page_obj \<Rightarrow> props" where
  "page_props this =
     [(''baseUrl'', JStr (baseUrl this)),
      (''url'', JStr (url this)),
      (''page'', (case page this of None \<Rightarrow> JNull | Some p \<Rightarrow> JNum p)),
      (''title'', title this)]"

text \<open>The URL that \<open>XFPage.prototype.load\<close> requests.\<close>

definition load_url :: "page_obj \<Rightarrow> string" where
  "load_url this =
     (case page this of
        None \<Rightarrow> url this
      | Some p \<Rightarrow> if p > 1 then url this @ ''page-'' @ string_of_int p else url this)"

text \<open>
  \<open>this.page = (last === undefined || this.page === last ? null : this.page + 1)\<close>,
  the last statement before the items are archived in both \<open>scrape\<close> methods.
\<close>

definition page_val :: "int option \<Rightarrow> jsval" where
  "page_val p = (case p of None \<Rightarrow> JNull | Some n \<Rightarrow> JNum n)"

definition next_page :: "int option \<Rightarrow> jsval \<Rightarrow> int option" where
  "next_page p lastp =
     (if lastp = JUndefined \<or> strict_eq (page_val p) lastp then None
      else Some ((case p of None \<Rightarrow> 0 | Some n \<Rightarrow> n) + 1))"

text \<open>The options the second \<open>map\<close> of \<open>XFThread.prototype.scrape\<close> gives to \<open>new XFPost\<close>.\<close>

definition post_options_of :: "page_obj \<Rightarrow> post_data \<Rightarrow> post_options" where
  "post_options_of this d =
     \<lparr>po_title = title this,
      po_url = url this,
      po_guid = baseUrl this @ str_or_undefined (pd_permalink d),
      po_author = pd_author d,
      po_date = pd_date d,
      po_description = pd_content d,
      po_likes = pd_likes d,
      po_number = pd_number d\<rparr>"

text \<open>
  \<open>XFThread.prototype.scrape\<close>: the posts are built from all messages first (a message
  that cannot be read throws before \<open>this.page\<close> is set), then the page is advanced, then
  every post is archived through \<open>BPromise.map\<close>.
\<close>

definition XFThread_scrape :: "env \<Rightarrow> page_obj \<Rightarrow> document \<Rightarrow> page_obj \<times> outcome" where
  "XFThread_scrape e this doc =
     (case scrape_messages (Date_parse e) (messages doc) of
        Inl err \<Rightarrow> (this, throw err)
      | Inr ds \<Rightarrow>
          let posts = map (\<lambda>d. XFPost_new (post_options_of this d)) ds;
              this' = this\<lparr>page := next_page (page this) (pageNav_last doc)\<rparr>
          in (this', BPromise_map (latency e (load_url this)) (map (XFPost_archive e) posts)))"

text \<open>\<open>XFPage.prototype.scrape\<close>, which the two subclasses replace.\<close>

definition XFPage_scrape :: "page_obj \<Rightarrow> page_obj \<times> outcome" where
  "XFPage_scrape this = (this, resolve)"

definition thread_options :: "page_obj \<Rightarrow> listing \<Rightarrow> page_options" where
  "thread_options this d =
     \<lparr>opt_baseUrl = baseUrl this,
      opt_path = href d,
      opt_page = None,
      opt_title = JStr (link_text d)\<rparr>"

text \<open>
  The traversal. The first argument bounds the number of nested calls of
  \<open>XFPage.prototype.archive\<close>; the program itself has no bound.

  \<^item> \<open>XFPage_archive\<close>: the progress line, then \<open>this.load().then(this._archiveNextPage)\<close>.
  \<^item> \<open>XFPage_load\<close>: the request, then \<open>_onLoad\<close>, which calls the \<open>scrape\<close> of the
    object's class.
  \<^item> \<open>XFForum_scrape\<close>: a thread object for every link, the page advanced, then
    \<open>BPromise.map\<close> over the threads with \<open>item.archive()\<close>.
  \<^item> \<open>XFPage_archiveNextPage\<close>: nothing when \<open>this.page === null\<close>, else \<open>this.archive()\<close>,
    which is the method of the object's class.
  \<^item> \<open>XFThread_archive\<close>: \<open>XFPage.prototype.archive\<close> is applied first; then the
    argument \<open>this._persistData.bind(this)\<close> is evaluated, which throws when the object
    has no such method, the promise of the first call being left on its own: its events
    still happen, and are listed, but nothing waits for it. When the bound cut that
    traversal short the outcome stays \<open>OutOfFuel\<close>.
\<close>

fun XFPage_archive :: "nat \<Rightarrow> env \<Rightarrow> page_obj \<Rightarrow> outcome"
  and XFPage_load :: "nat \<Rightarrow> env \<Rightarrow> page_obj \<Rightarrow> page_obj \<times> outcome"
  and XFForum_scrape :: "nat \<Rightarrow> env \<Rightarrow> page_obj \<Rightarrow> document \<Rightarrow> page_obj \<times> outcome"
  and XFPage_archiveNextPage :: "nat \<Rightarrow> env \<Rightarrow> page_obj \<Rightarrow> outcome"
  and XFThread_archive :: "nat \<Rightarrow> env \<Rightarrow> page_obj \<Rightarrow> outcome"
where
  "XFPage_archive 0 e this = \<lparr>events = [], settled = OutOfFuel\<rparr>"
| "XFPage_archive (Suc n) e this =
     (let l = XFPage_load n e this;
          p = \<lparr>events = Archiving (cls this) (url this) (page this) # events (snd l),
               settled = settled (snd l)\<rparr>
      in then_p p (XFPage_archiveNextPage n e (fst l)))"
| "XFPage_load n e this =
     (case needle_get e (load_url this) of
        None \<Rightarrow> (this, \<lparr>events = [Get (load_url this)], settled = Rejected NeedleError\<rparr>)
      | Some doc \<Rightarrow>
          let s = (case cls this of
                     XFForum \<Rightarrow> XFForum_scrape n e this doc
                   | XFThread \<Rightarrow> XFThread_scrape e this doc
                   | _ \<Rightarrow> XFPage_scrape this)
          in (fst s, then_p \<lparr>events = [Get (load_url this)], settled = Fulfilled\<rparr> (snd s)))"
| "XFForum_scrape n e this doc =
     (let threads = map (\<lambda>d. XFThread_new (thread_options this d)) (discussionListItems doc);
          this' = this\<lparr>page := next_page (page this) (pageNav_last doc)\<rparr>
      in (this', BPromise_map (latency e (load_url this)) (map (XFThread_archive n e) threads)))"
| "XFPage_archiveNextPage n e this =
     (if page this = None then resolve
      else (case cls this of
              XFThread \<Rightarrow> XFThread_archive n e this
            | _ \<Rightarrow> XFPage_archive n e this))"
| "XFThread_archive n e this =
     (let p = XFPage_archive n e this in
      case lookup_persistData XFThread of
        None \<Rightarrow>
          (if settled p = OutOfFuel then p
           else p\<lparr>settled := Threw (TypeError ''Cannot read property bind of undefined'')\<rparr>)
      | Some body \<Rightarrow> then_p p (persistData body e (page_props this)))"

declare XFPage_archive.simps [simp del]
declare XFPage_load.simps [simp del]
declare XFForum_scrape.simps [simp del]
declare XFPage_archiveNextPage.simps [simp del]
declare XFThread_archive.simps [simp del]

text \<open>
  \<open>this.scrape()\<close> as \<open>_onLoad\<close> calls it: the method of the object's class. It is the
  choice written out in \<open>XFPage_load\<close>.
\<close>

definition scrape :: "nat \<Rightarrow> env \<Rightarrow> page_obj \<Rightarrow> document \<Rightarrow> page_obj \<times> outcome" where
  "scrape n e this doc =
     (case cls this of
        XFForum \<Rightarrow> XFForum_scrape n e this doc
      | XFThread \<Rightarrow> XFThread_scrape e this doc
      | _ \<Rightarrow> XFPage_scrape this)"

text \<open>
  The object the program builds and the call it makes once the tables exist:
  \<open>archiver.archive()\<close>, which for an \<open>XFForum\<close> is \<open>XFPage.prototype.archive\<close>.
\<close>

definition archiver :: page_obj where
  "archiver = XFForum_new
     \<lparr>opt_baseUrl = ''https://forums.station.sony.com/everquestnext/'',
      opt_path = Some ''index.php?forums/eqn-forum-archive-temporary.12/'',
      opt_page = None,
      opt_title = JUndefined\<rparr>"

definition run :: "nat \<Rightarrow> env \<Rightarrow> outcome" where
  "run n e = XFPage_archive n e archiver"

section \<open>Observations and sample inputs\<close>

text \<open>
  The pages of the progress lines of one class in a list of events. \<open>archive\<close> prints
  the line and calls \<open>load\<close> at once, so these are the pages an object of that class
  requests.
\<close>

fun pages_of :: "cls \<Rightarrow> event list \<Rightarrow> int option list" where
  "pages_of c [] = []"
| "pages_of c (Archiving c' u p # evs) = (if c' = c then p # pages_of c evs else pages_of c evs)"
| "pages_of c (ev # evs) = pages_of c evs"

text \<open>The number of items \<open>scrape\<close> finds on a page, by the class of the object.\<close>

definition item_count :: "cls \<Rightarrow> document \<Rightarrow> nat" where
  "item_count c doc = (if c = XFForum then length (discussionListItems doc) else length (messages doc))"

text \<open>The position of an item in a list without repetition.\<close>

definition position :: "nat list \<Rightarrow> nat \<Rightarrow> nat" where
  "position xs i = length (takeWhile (\<lambda>j. j \<noteq> i) xs)"

text \<open>
  A small site to run the program on: a forum of one page that lists one thread, whose
  single page is given. The database accepts every statement.
\<close>

definition sample_message :: message where
  "sample_message =
     \<lparr>rating_text = ''3'', datestring = Some ''January 5, 2015'', timestring = Some ''2:30 PM'',
      datetime_title = None, permalink_href = Some ''posts/9/'', data_author = JStr ''bob'',
      blockquote_html = Some ''hello'', postNumber_text = ''#7''\<rparr>"

definition sample_thread_page :: document where
  "sample_thread_page = \<lparr>discussionListItems = [], messages = [sample_message], pageNav_last = JUndefined\<rparr>"

definition sample_forum_page :: document where
  "sample_forum_page =
     \<lparr>discussionListItems = [\<lparr>href = Some ''threads/a.1/'', link_text = ''A''\<rparr>],
      messages = [], pageNav_last = JUndefined\<rparr>"

definition sample_site :: "document \<Rightarrow> string \<Rightarrow> document option" where
  "sample_site thread_page u =
     (if u = ''http://h/forums/x.12/'' then Some sample_forum_page
      else if u = ''http://h/threads/a.1/'' then Some thread_page
      else None)"

definition sample_env :: "document \<Rightarrow> env" where
  "sample_env thread_page =
     \<lparr>needle_get = sample_site thread_page, db_run = (\<lambda>sql params. None),
      Date_parse = (\<lambda>s. Some 1420416000000), toISOString = (\<lambda>t. ''2015-01-05T14:30:00.000Z''),
      latency = (\<lambda>u i. i)\<rparr>"

definition sample_forum :: page_obj where
  "sample_forum = XFForum_new
     \<lparr>opt_baseUrl = ''http://h/'', opt_path = Some ''forums/x.12/'', opt_page = None,
      opt_title = JUndefined\<rparr>"

definition sample_thread :: page_obj where
  "sample_thread = XFThread_new (thread_options sample_forum \<lparr>href = Some ''threads/a.1/'', link_text = ''A''\<rparr>)"

definition sample_post :: props where
  "sample_post = XFPost_new
     \<lparr>po_title = JStr ''A'', po_url = ''http://h/threads/a.1/'', po_guid = ''http://h/posts/9/'',
      po_author = JStr ''bob'', po_date = Some 1420468200000, po_description = Some ''hello'',
      po_likes = JNum 3, po_number = JNum 7\<rparr>"

definition noon_thread_page :: document where
  "noon_thread_page =
     \<lparr>discussionListItems = [], messages = [sample_message\<lparr>timestring := Some ''noon''\<rparr>],
      pageNav_last = JUndefined\<rparr>"

section \<open>The request URL\<close>

lemma XFPage_load_events:
  "\<exists>rest. events (snd (XFPage_load n e this)) = Get (load_url this) # rest"
  by (simp add: XFPage_load.simps then_p_def Let_def split: option.splits)

text \<open>
  C10. Every \<open>load\<close> of a page object built from a base URL and a path requests the base
  URL followed by the path when the object is at page 1, and the same followed by
  \<open>page-N\<close> when it is at a page \<open>N\<close> greater than 1.
\<close>

theorem C10_request_url:
  assumes "this = (XFPage_new c options)\<lparr>page := Some N, title := t\<rparr>"
    and "opt_path options = Some path"
  shows "(N = 1 \<longrightarrow>
            (\<exists>rest. events (snd (XFPage_load n e this)) = Get (opt_baseUrl options @ path) # rest))
       \<and> (N > 1 \<longrightarrow>
            (\<exists>rest. events (snd (XFPage_load n e this))
                      = Get (opt_baseUrl options @ path @ ''page-'' @ string_of_int N) # rest))"
proof -
  have u: "url this = opt_baseUrl options @ path"
    using assms by (simp add: XFPage_new_def str_or_undefined_def)
  have p: "page this = Some N"
    using assms by simp
  from XFPage_load_events [of n e this] obtain rest
    where r: "events (snd (XFPage_load n e this)) = Get (load_url this) # rest" by blast
  show ?thesis
    using r u p by (auto simp: load_url_def)
qed

theorem C10_request_url_witness:
  "\<exists>rest. events (snd (XFPage_load 0
        \<lparr>needle_get = (\<lambda>u. None), db_run = (\<lambda>s p. None), Date_parse = (\<lambda>s. None),
         toISOString = (\<lambda>t. []), latency = (\<lambda>u i. i)\<rparr>
        ((XFPage_new XFForum
            \<lparr>opt_baseUrl = ''http://h/'', opt_path = Some ''index.php?forums/x.12/'',
             opt_page = None, opt_title = JUndefined\<rparr>)\<lparr>page := Some 3, title := JUndefined\<rparr>)))
     = Get ''http://h/index.php?forums/x.12/page-3'' # rest"
  using C10_request_url
    [where c = XFForum
       and options = "\<lparr>opt_baseUrl = ''http://h/'', opt_path = Some ''index.php?forums/x.12/'',
                       opt_page = None, opt_title = JUndefined\<rparr>"
       and N = 3 and t = JUndefined and path = "''index.php?forums/x.12/''" and n = 0
       and e = "\<lparr>needle_get = (\<lambda>u. None), db_run = (\<lambda>s p. None), Date_parse = (\<lambda>s. None),
                 toISOString = (\<lambda>t. []), latency = (\<lambda>u i. i)\<rparr>",
     OF refl]
  by (simp add: string_of_int_def digit_chars_def)

section \<open>The end of a branch\<close>

lemma next_page_terminal:
  "lastp = JUndefined \<or> (\<exists>k. p = Some k \<and> lastp = JNum k) \<Longrightarrow> next_page p lastp = None"
  by (auto simp: next_page_def page_val_def)

lemma XFPage_load_page_Forum:
  "cls this = XFForum \<Longrightarrow> needle_get e (load_url this) = Some doc \<Longrightarrow>
   fst (XFPage_load n e this) = fst (XFForum_scrape n e this doc)"
  by (simp add: XFPage_load.simps Let_def)

lemma XFPage_load_page_Thread:
  "cls this = XFThread \<Longrightarrow> needle_get e (load_url this) = Some doc \<Longrightarrow>
   fst (XFPage_load n e this) = fst (XFThread_scrape e this doc)"
  by (simp add: XFPage_load.simps Let_def)

lemma XFPage_load_settled_Thread:
  "cls this = XFThread \<Longrightarrow> needle_get e (load_url this) = Some doc \<Longrightarrow>
   settled (snd (XFPage_load n e this)) = Fulfilled \<Longrightarrow>
   \<exists>ds. scrape_messages (Date_parse e) (messages doc) = Inr ds"
  by (auto simp: XFPage_load.simps Let_def then_p_def XFThread_scrape_def throw_def split: sum.splits)

text \<open>
  C3. For a forum or a thread: when the page just read has no last-page datum, or the
  datum is the number of the current page, both \<open>scrape\<close> methods set \<open>this.page\<close> to
  \<open>null\<close> (the thread's once its messages have been read); \<open>_archiveNextPage\<close> on an
  object whose page is \<open>null\<close> resolves at once without any event; and the whole
  \<open>archive\<close> of the object consists of the cycle of that one page, so the branch requests
  nothing after it.
\<close>

theorem C3_terminal_cursor:
  assumes "pageNav_last doc = JUndefined \<or> (\<exists>k. page this = Some k \<and> pageNav_last doc = JNum k)"
  shows "page (fst (XFForum_scrape n e this doc)) = None
       \<and> (\<forall>ds. scrape_messages (Date_parse e) (messages doc) = Inr ds
              \<longrightarrow> page (fst (XFThread_scrape e this doc)) = None)
       \<and> (\<forall>this'. page this' = None \<longrightarrow> XFPage_archiveNextPage n e this' = resolve)
       \<and> ((cls this = XFForum \<or> cls this = XFThread) \<and> needle_get e (load_url this) = Some doc
            \<longrightarrow> events (XFPage_archive (Suc n) e this)
                = Archiving (cls this) (url this) (page this) # events (snd (XFPage_load n e this)))"
proof -
  have np: "next_page (page this) (pageNav_last doc) = None"
    using assms by (rule next_page_terminal)
  have a: "page (fst (XFForum_scrape n e this doc)) = None"
    using np by (simp add: XFForum_scrape.simps Let_def)
  have b: "\<forall>ds. scrape_messages (Date_parse e) (messages doc) = Inr ds
              \<longrightarrow> page (fst (XFThread_scrape e this doc)) = None"
    using np by (simp add: XFThread_scrape_def Let_def)
  have c: "\<forall>this'. page this' = None \<longrightarrow> XFPage_archiveNextPage n e this' = resolve"
    by (simp add: XFPage_archiveNextPage.simps)
  have d: "events (XFPage_archive (Suc n) e this)
                = Archiving (cls this) (url this) (page this) # events (snd (XFPage_load n e this))"
    if k: "cls this = XFForum \<or> cls this = XFThread" and g: "needle_get e (load_url this) = Some doc"
  proof (cases "settled (snd (XFPage_load n e this)) = Fulfilled")
    case True
    have "page (fst (XFPage_load n e this)) = None"
    proof -
      from k show ?thesis
      proof
        assume f: "cls this = XFForum"
        show ?thesis using a XFPage_load_page_Forum [OF f g] by simp
      next
        assume t: "cls this = XFThread"
        from XFPage_load_settled_Thread [OF t g True] obtain ds
          where "scrape_messages (Date_parse e) (messages doc) = Inr ds" by blast
        then show ?thesis using b XFPage_load_page_Thread [OF t g] by simp
      qed
    qed
    then have "XFPage_archiveNextPage n e (fst (XFPage_load n e this)) = resolve"
      using c by blast
    then show ?thesis
      using True by (simp add: XFPage_archive.simps Let_def then_p_def resolve_def)
  next
    case False
    then show ?thesis
      by (simp add: XFPage_archive.simps Let_def then_p_def split: settle.splits)
  qed
  show ?thesis using a b c d by blast
qed

theorem C3_terminal_cursor_witness:
  "page (fst (XFThread_scrape
       \<lparr>needle_get = (\<lambda>u. None), db_run = (\<lambda>s p. None), Date_parse = (\<lambda>s. None),
         toISOString = (\<lambda>t. []), latency = (\<lambda>u i. i)\<rparr>
       \<lparr>cls = XFThread, baseUrl = ''b/'', url = ''b/t/'', page = Some 2, title = JStr ''T''\<rparr>
       \<lparr>discussionListItems = [], messages = [], pageNav_last = JNum 2\<rparr>)) = None"
  using C3_terminal_cursor
    [where doc = "\<lparr>discussionListItems = [], messages = [], pageNav_last = JNum 2\<rparr>"
       and this = "\<lparr>cls = XFThread, baseUrl = ''b/'', url = ''b/t/'', page = Some 2, title = JStr ''T''\<rparr>"
       and e = "\<lparr>needle_get = (\<lambda>u. None), db_run = (\<lambda>s p. None), Date_parse = (\<lambda>s. None),
         toISOString = (\<lambda>t. []), latency = (\<lambda>u i. i)\<rparr>"]
  by simp

section \<open>Likes\<close>







section \<open>The hour and the minute of a post\<close>










section \<open>What is written to the database\<close>

lemma lookup_XFPost: "lookup_persistData XFPost = Some Insert_thread"
  by (simp add: lookup_persistData_def own_persistData_def persistData_assignments_def)

lemma lookup_XFThread: "lookup_persistData XFThread = None"
  by (simp add: lookup_persistData_def own_persistData_def persistData_assignments_def)

lemma XFThread_archive_never_fulfilled: "settled (XFThread_archive n e this) \<noteq> Fulfilled"
  by (simp add: XFThread_archive.simps lookup_XFThread Let_def)

lemma sample_thread_eq:
  "sample_thread = \<lparr>cls = XFThread, baseUrl = ''http://h/'', url = ''http://h/threads/a.1/'',
     page = Some 1, title = JStr ''A''\<rparr>"
  by (simp add: sample_thread_def XFThread_new_def XFPage_new_def thread_options_def sample_forum_def
      XFForum_new_def str_or_undefined_def start_page_def)

text \<open>
  C2. The claim is that archiving a post inserts its eight fields into \<open>posts\<close>. In the
  program the method \<open>_persistData\<close> of \<open>XFPost\<close> is the second function assigned to
  it, so archiving the sample post gives the database the statement that inserts into
  \<open>threads\<close>, with the post's title and an undefined \<open>url\<close>.
\<close>

theorem C2_post_written_to_threads:
  "lookup_persistData XFPost = Some Insert_thread
   \<and> XFPost_archive (sample_env sample_thread_page) sample_post =
       \<lparr>events = [DbRun ''INSERT INTO threads (title, url) VALUES ($title, $url);''
                    [(''$title'', JStr ''A''), (''$url'', JUndefined)]],
        settled = Fulfilled\<rparr>
   \<and> events (XFPost_archive e (XFPost_new options)) =
       [DbRun sql_threads [(''$title'', po_title options), (''$url'', JUndefined)]]"
proof -
  have a: "XFPost_archive (sample_env sample_thread_page) sample_post =
       \<lparr>events = [DbRun ''INSERT INTO threads (title, url) VALUES ($title, $url);''
                    [(''$title'', JStr ''A''), (''$url'', JUndefined)]],
        settled = Fulfilled\<rparr>"
    by (simp add: lookup_XFPost XFPost_archive_def db_runAsync_def sql_threads_def sample_post_def
        XFPost_new_def get_def sample_env_def)
  have b: "events (XFPost_archive e (XFPost_new options)) =
       [DbRun sql_threads [(''$title'', po_title options), (''$url'', JUndefined)]]"
    by (simp add: lookup_XFPost XFPost_archive_def db_runAsync_def XFPost_new_def get_def)
  show ?thesis using a b lookup_XFPost by simp
qed

text \<open>
  C5. The claim is that the stored record carries the number parsed from the label. The
  label \<open>#7\<close> is parsed to 7, but the constructor of \<open>XFPost\<close> never assigns
  \<open>this.number\<close>: the sample post, built with number 7, has no such property, the
  insertion into \<open>posts\<close> would bind \<open>$num\<close> to \<open>undefined\<close>, and the statement that
  is really run has no number at all.
\<close>

theorem C5_number_not_stored:
  "scrape_number ''#7'' = JNum 7
   \<and> get sample_post ''number'' = JUndefined
   \<and> events (persistData Insert_post (sample_env sample_thread_page) sample_post) =
       [DbRun sql_posts
          [(''$title'', JStr ''A''), (''$desc'', JStr ''hello''),
           (''$date'', JStr ''2015-01-05T14:30:00.000Z''), (''$link'', JStr ''http://h/threads/a.1/''),
           (''$guid'', JStr ''http://h/posts/9/''), (''$author'', JStr ''bob''),
           (''$num'', JUndefined), (''$likes'', JNum 3)]]
   \<and> events (XFPost_archive (sample_env sample_thread_page) sample_post) =
       [DbRun sql_threads [(''$title'', JStr ''A''), (''$url'', JUndefined)]]
   \<and> get (XFPost_new options) ''number'' = JUndefined"
proof -
  have a: "scrape_number ''#7'' = JNum 7"
    by (simp add: scrape_number_def parseInt_str_def is_js_space_def is_digit_def digit_chars_def
        digits_val_def digit_val_def)
  have b: "get sample_post ''number'' = JUndefined"
    "events (persistData Insert_post (sample_env sample_thread_page) sample_post) =
       [DbRun sql_posts
          [(''$title'', JStr ''A''), (''$desc'', JStr ''hello''),
           (''$date'', JStr ''2015-01-05T14:30:00.000Z''), (''$link'', JStr ''http://h/threads/a.1/''),
           (''$guid'', JStr ''http://h/posts/9/''), (''$author'', JStr ''bob''),
           (''$num'', JUndefined), (''$likes'', JNum 3)]]"
    "events (XFPost_archive (sample_env sample_thread_page) sample_post) =
       [DbRun sql_threads [(''$title'', JStr ''A''), (''$url'', JUndefined)]]"
    by (simp_all add: lookup_XFPost XFPost_archive_def db_runAsync_def sample_post_def
        XFPost_new_def get_def sample_env_def html_val_def)
  have c: "get (XFPost_new options) ''number'' = JUndefined"
    by (simp add: XFPost_new_def get_def)
  show ?thesis using a b c by simp
qed

text \<open>
  C1. The claim is that a thread is stored once, after its pages. \<open>XFThread\<close> has no
  method \<open>_persistData\<close>, so \<open>XFThread.prototype.archive\<close> throws once it has
  started the traversal; on the sample thread the only statement run is the one of its
  post, and no statement carries the thread's title and URL. For no thread, site or bound
  is the promise of a thread's \<open>archive\<close> fulfilled.
\<close>

theorem C1_thread_never_persisted:
  "lookup_persistData XFThread = None
   \<and> XFThread_archive 2 (sample_env sample_thread_page) sample_thread =
       \<lparr>events = [Archiving XFThread ''http://h/threads/a.1/'' (Some 1),
                  Get ''http://h/threads/a.1/'',
                  DbRun sql_threads [(''$title'', JStr ''A''), (''$url'', JUndefined)],
                  ItemDone 0 None],
        settled = Threw (TypeError ''Cannot read property bind of undefined'')\<rparr>
   \<and> settled (XFThread_archive n e this) \<noteq> Fulfilled"
proof -
  have a: "XFThread_archive 2 (sample_env sample_thread_page) sample_thread =
       \<lparr>events = [Archiving XFThread ''http://h/threads/a.1/'' (Some 1),
                  Get ''http://h/threads/a.1/'',
                  DbRun sql_threads [(''$title'', JStr ''A''), (''$url'', JUndefined)],
                  ItemDone 0 None],
        settled = Threw (TypeError ''Cannot read property bind of undefined'')\<rparr>"
    by code_simp
  show ?thesis
    using a lookup_XFThread XFThread_archive_never_fulfilled [of n e this] by simp
qed

text \<open>
  C9. The claim is that a time part that does not match fails the whole run from the top.
  On a thread page whose message has the time part \<open>noon\<close> the date cannot be read and
  the promise of the thread's page is rejected with that error; but
  \<open>XFThread.prototype.archive\<close> has thrown before, so the forum's call is rejected with
  the error of the missing method, as it is when the time part is well formed.
\<close>

theorem C9_date_error_not_propagated:
  "scrape_date (Date_parse (sample_env noon_thread_page)) (sample_message\<lparr>timestring := Some ''noon''\<rparr>)
     = Inl (TypeError ''Cannot read property 1 of null'')
   \<and> XFPage_archive 1 (sample_env noon_thread_page) sample_thread =
       \<lparr>events = [Archiving XFThread ''http://h/threads/a.1/'' (Some 1),
                  Get ''http://h/threads/a.1/''],
        settled = Rejected (TypeError ''Cannot read property 1 of null'')\<rparr>
   \<and> XFThread_archive 1 (sample_env noon_thread_page) sample_thread =
       \<lparr>events = [Archiving XFThread ''http://h/threads/a.1/'' (Some 1),
                  Get ''http://h/threads/a.1/''],
        settled = Threw (TypeError ''Cannot read property bind of undefined'')\<rparr>
   \<and> XFPage_archive 2 (sample_env noon_thread_page) sample_forum =
       \<lparr>events = [Archiving XFForum ''http://h/forums/x.12/'' (Some 1),
                  Get ''http://h/forums/x.12/'',
                  Archiving XFThread ''http://h/threads/a.1/'' (Some 1),
                  Get ''http://h/threads/a.1/''],
        settled = Rejected (TypeError ''Cannot read property bind of undefined'')\<rparr>
   \<and> settled (XFPage_archive 2 (sample_env sample_thread_page) sample_forum) =
       Rejected (TypeError ''Cannot read property bind of undefined'')"
  by code_simp

section \<open>The cycle of a page\<close>

lemma then_p_events:
  "events (then_p p q) = events p @ (if settled p = Fulfilled then events q else [])"
  by (simp add: then_p_def split: settle.splits)

lemma then_p_settled_Fulfilled:
  "settled (then_p p q) = Fulfilled \<longleftrightarrow> settled p = Fulfilled \<and> settled q = Fulfilled"
  by (simp add: then_p_def split: settle.splits)

lemma XFPage_load_scrape:
  "XFPage_load n e this =
     (case needle_get e (load_url this) of
        None \<Rightarrow> (this, \<lparr>events = [Get (load_url this)], settled = Rejected NeedleError\<rparr>)
      | Some doc \<Rightarrow>
          (fst (scrape n e this doc),
           then_p \<lparr>events = [Get (load_url this)], settled = Fulfilled\<rparr> (snd (scrape n e this doc))))"
  by (simp add: XFPage_load.simps scrape_def Let_def split: option.splits)

lemma XFThread_archive_events:
  "events (XFThread_archive n e this) = events (XFPage_archive n e this)"
  by (simp add: XFThread_archive.simps lookup_XFThread Let_def)

lemma XFPage_archive_cycle:
  assumes "needle_get e (load_url this) = Some doc"
  shows "events (XFPage_archive (Suc n) e this) =
           Archiving (cls this) (url this) (page this) # Get (load_url this)
           # events (snd (scrape n e this doc))
           @ (if settled (snd (scrape n e this doc)) = Fulfilled
              then events (XFPage_archiveNextPage n e (fst (scrape n e this doc))) else [])"
  using assms
  by (simp add: XFPage_archive.simps XFPage_load_scrape Let_def then_p_events then_p_settled_Fulfilled)

lemma XFPage_archive_failed_request:
  assumes "needle_get e (load_url this) = None"
  shows "events (XFPage_archive (Suc n) e this) =
           [Archiving (cls this) (url this) (page this), Get (load_url this)]"
  using assms
  by (simp add: XFPage_archive.simps XFPage_load_scrape Let_def then_p_events)

lemma pages_of_append: "pages_of c (xs @ ys) = pages_of c xs @ pages_of c ys"
  by (induction c xs rule: pages_of.induct) simp_all

lemma pages_of_concat:
  "(\<forall>x\<in>set xss. pages_of c x = []) \<Longrightarrow> pages_of c (concat xss) = []"
  by (induction xss) (simp_all add: pages_of_append)

lemma pages_of_ItemDone: "pages_of c (map (\<lambda>i. ItemDone i (f i)) js) = []"
  by (induction js) simp_all

lemma pages_of_BPromise_map:
  assumes "\<forall>p\<in>set outs. pages_of c (events p) = []"
  shows "pages_of c (events (BPromise_map lat outs)) = []"
proof (cases "dropWhile (\<lambda>p. \<not> is_Threw (settled p)) outs")
  case Nil
  have "pages_of c (concat (map events outs)) = []"
    using assms by (intro pages_of_concat) simp
  then show ?thesis
    unfolding BPromise_map_def Nil by (simp add: Let_def pages_of_append pages_of_ItemDone)
next
  case (Cons p ps)
  then have "p \<in> set outs"
    by (metis list.set_intros(1) set_dropWhileD)
  then have p: "pages_of c (events p) = []" using assms by simp
  have "pages_of c (concat (map events (takeWhile (\<lambda>p. \<not> is_Threw (settled p)) outs))) = []"
    using assms by (intro pages_of_concat) (auto dest: set_takeWhileD)
  then show ?thesis
    unfolding BPromise_map_def Cons using p by (simp add: pages_of_append)
qed

lemma pages_of_XFPost_archive: "pages_of c (events (XFPost_archive e post)) = []"
  by (simp add: XFPost_archive_def lookup_XFPost db_runAsync_def)

lemma XFThread_scrape_pages: "pages_of c (events (snd (XFThread_scrape e this doc))) = []"
  by (auto simp: XFThread_scrape_def throw_def Let_def split: sum.splits
      intro!: pages_of_BPromise_map pages_of_XFPost_archive)

lemma XFThread_scrape_next:
  assumes "settled (snd (XFThread_scrape e this doc)) = Fulfilled"
  shows "fst (XFThread_scrape e this doc) = this\<lparr>page := next_page (page this) (pageNav_last doc)\<rparr>"
  using assms by (auto simp: XFThread_scrape_def throw_def Let_def split: sum.splits)

lemma XFForum_scrape_next:
  "fst (XFForum_scrape n e this doc) = this\<lparr>page := next_page (page this) (pageNav_last doc)\<rparr>"
  by (simp add: XFForum_scrape.simps Let_def)

lemma next_page_cases:
  "next_page (Some p) lastp = None \<or> next_page (Some p) lastp = Some (p + 1)"
  by (simp add: next_page_def)

lemma consecutive_Cons:
  "Some p # map (\<lambda>i. Some (p + 1 + int i)) [0..<k] = map (\<lambda>i. Some (p + int i)) [0..<Suc k]"
proof -
  have "[0..<Suc k] = 0 # map Suc [0..<k]"
    by (simp add: upt_conv_Cons map_Suc_upt del: upt_Suc)
  then show ?thesis by (simp add: comp_def add.commute add.left_commute del: upt_Suc)
qed

lemma thread_pages:
  assumes "cls this = XFThread" and "page this = Some p"
  shows "\<exists>k. pages_of c (events (XFPage_archive n e this))
            = (if c = XFThread then map (\<lambda>i. Some (p + int i)) [0..<k] else [])"
  using assms
proof (induction n arbitrary: this p)
  case 0
  show ?case by (rule exI [of _ 0]) (simp add: XFPage_archive.simps)
next
  case (Suc n)
  show ?case
  proof (cases "needle_get e (load_url this)")
    case None
    show ?thesis
      by (rule exI [of _ 1]) (simp add: XFPage_archive_failed_request [OF None] Suc.prems)
  next
    case (Some doc)
    let ?s = "scrape n e this doc"
    have sc: "?s = XFThread_scrape e this doc"
      using Suc.prems by (simp add: scrape_def)
    have sp: "pages_of c' (events (snd ?s)) = []" for c'
      by (simp add: sc XFThread_scrape_pages)
    show ?thesis
    proof (cases "settled (snd ?s) = Fulfilled")
      case False
      show ?thesis
        by (rule exI [of _ 1])
          (simp add: XFPage_archive_cycle [OF Some] False pages_of_append sp Suc.prems)
    next
      case True
      have nx: "fst ?s = this\<lparr>page := next_page (Some p) (pageNav_last doc)\<rparr>"
        using True XFThread_scrape_next [of e this doc] Suc.prems by (simp add: sc)
      from next_page_cases [of p "pageNav_last doc"] show ?thesis
      proof
        assume "next_page (Some p) (pageNav_last doc) = None"
        then have "XFPage_archiveNextPage n e (fst ?s) = resolve"
          by (simp add: nx XFPage_archiveNextPage.simps)
        then show ?thesis
          by (intro exI [of _ 1])
            (simp add: XFPage_archive_cycle [OF Some] True pages_of_append sp Suc.prems resolve_def)
      next
        assume np: "next_page (Some p) (pageNav_last doc) = Some (p + 1)"
        let ?t = "fst ?s"
        have t: "cls ?t = XFThread" "page ?t = Some (p + 1)"
          using Suc.prems np by (simp_all add: nx)
        have "events (XFPage_archiveNextPage n e ?t) = events (XFPage_archive n e ?t)"
          using t by (simp add: XFPage_archiveNextPage.simps XFThread_archive_events)
        moreover from Suc.IH [OF t] obtain k
          where "pages_of c (events (XFPage_archive n e ?t))
            = (if c = XFThread then map (\<lambda>i. Some (p + 1 + int i)) [0..<k] else [])" by blast
        ultimately show ?thesis
          using consecutive_Cons [of p k]
          by (intro exI [of _ "Suc k"])
            (auto simp add: XFPage_archive_cycle [OF Some] True pages_of_append sp Suc.prems
              simp del: upt_Suc)
      qed
    qed
  qed
qed

lemma forum_pages:
  assumes "cls this = XFForum" and "page this = Some p"
  shows "\<exists>k. pages_of XFForum (events (XFPage_archive n e this))
            = map (\<lambda>i. Some (p + int i)) [0..<k]"
  using assms
proof (induction n arbitrary: this p)
  case 0
  show ?case by (rule exI [of _ 0]) (simp add: XFPage_archive.simps)
next
  case (Suc n)
  show ?case
  proof (cases "needle_get e (load_url this)")
    case None
    show ?thesis
      by (rule exI [of _ 1]) (simp add: XFPage_archive_failed_request [OF None] Suc.prems)
  next
    case (Some doc)
    let ?s = "scrape n e this doc"
    have sc: "?s = XFForum_scrape n e this doc"
      using Suc.prems by (simp add: scrape_def)
    have th: "pages_of XFForum (events (XFThread_archive n e (XFThread_new opts))) = []" for opts
      using thread_pages [of "XFThread_new opts" _ XFForum n e]
      by (simp add: XFThread_archive_events XFThread_new_def XFPage_new_def)
    have sp: "pages_of XFForum (events (snd ?s)) = []"
      unfolding sc by (simp add: XFForum_scrape.simps Let_def) (rule pages_of_BPromise_map, simp add: th)
    have nx: "fst ?s = this\<lparr>page := next_page (Some p) (pageNav_last doc)\<rparr>"
      using Suc.prems by (simp add: sc XFForum_scrape_next)
    show ?thesis
    proof (cases "settled (snd ?s) = Fulfilled")
      case False
      show ?thesis
        by (rule exI [of _ 1])
          (simp add: XFPage_archive_cycle [OF Some] False pages_of_append sp Suc.prems)
    next
      case True
      from next_page_cases [of p "pageNav_last doc"] show ?thesis
      proof
        assume "next_page (Some p) (pageNav_last doc) = None"
        then have "XFPage_archiveNextPage n e (fst ?s) = resolve"
          by (simp add: nx XFPage_archiveNextPage.simps)
        then show ?thesis
          by (intro exI [of _ 1])
            (simp add: XFPage_archive_cycle [OF Some] True pages_of_append sp Suc.prems resolve_def)
      next
        assume np: "next_page (Some p) (pageNav_last doc) = Some (p + 1)"
        let ?t = "fst ?s"
        have t: "cls ?t = XFForum" "page ?t = Some (p + 1)"
          using Suc.prems np by (simp_all add: nx)
        have "events (XFPage_archiveNextPage n e ?t) = events (XFPage_archive n e ?t)"
          using t by (simp add: XFPage_archiveNextPage.simps)
        moreover from Suc.IH [OF t] obtain k
          where "pages_of XFForum (events (XFPage_archive n e ?t))
            = map (\<lambda>i. Some (p + 1 + int i)) [0..<k]" by blast
        ultimately show ?thesis
          using consecutive_Cons [of p k]
          by (intro exI [of _ "Suc k"])
            (auto simp add: XFPage_archive_cycle [OF Some] True pages_of_append sp Suc.prems
              simp del: upt_Suc)
      qed
    qed
  qed
qed

lemma distinct_consecutive: "distinct (map (\<lambda>i. Some (p + int i)) [0..<k])"
  by (simp add: distinct_map inj_on_def)

lemma completion_order_set: "set (completion_order lat n) = {0..<n}"
  by (simp add: completion_order_def)

lemma position_nth: "a \<in> set xs \<Longrightarrow> xs ! position xs a = a"
  by (induction xs) (auto simp: position_def)

lemma upt_Suc_map: "0 # map Suc [0..<n] = [0..<Suc n]"
  by (simp add: upt_conv_Cons map_Suc_upt del: upt_Suc)

lemma position_map: "distinct xs \<Longrightarrow> map (position xs) xs = [0..<length xs]"
proof (induction xs)
  case Nil
  show ?case by simp
next
  case (Cons x xs)
  have h: "position (x # xs) x = 0"
    by (simp add: position_def)
  have "map (position (x # xs)) xs = map (\<lambda>i. Suc (position xs i)) xs"
    using Cons.prems by (intro map_cong) (auto simp: position_def)
  also have "\<dots> = map Suc (map (position xs) xs)" by simp
  also have "\<dots> = map Suc [0..<length xs]" using Cons by simp
  finally have t: "map (position (x # xs)) xs = map Suc [0..<length xs]" .
  have "map (position (x # xs)) (x # xs) = 0 # map Suc [0..<length xs]"
    by (simp only: list.map h t)
  then show ?case
    by (simp only: upt_Suc_map length_Cons)
qed

lemma position_inj: "inj_on (position xs) (set xs)"
proof (rule inj_onI)
  fix a b assume a: "a \<in> set xs" and b: "b \<in> set xs" and e: "position xs a = position xs b"
  show "a = b"
    using position_nth [OF a] position_nth [OF b] e by metis
qed

lemma any_completion_order:
  assumes "distinct xs" and "set xs = {0..<n}"
  shows "completion_order (position xs) n = xs"
  unfolding completion_order_def
proof (rule sort_key_inj_key_eq)
  show "mset [0..<n] = mset xs"
    using assms by (metis distinct_upt set_eq_iff_mset_eq_distinct set_upt)
  show "inj_on (position xs) (set [0..<n])"
    using position_inj [of xs] assms by simp
  show "sorted (map (position xs) xs)"
    using assms by (simp add: position_map)
qed

lemma dropWhile_Threw_Nil:
  "(\<forall>p\<in>set outs. settled p = Fulfilled) \<Longrightarrow> dropWhile (\<lambda>p. \<not> is_Threw (settled p)) outs = []"
  by (induction outs) simp_all

lemma BPromise_map_all_Fulfilled:
  assumes "\<forall>p\<in>set outs. settled p = Fulfilled"
  shows "BPromise_map lat outs =
           \<lparr>events = concat (map events outs)
                      @ map (\<lambda>i. ItemDone i None) (completion_order lat (length outs)),
            settled = Fulfilled\<rparr>"
proof -
  have d: "dropWhile (\<lambda>p. \<not> is_Threw (settled p)) outs = []"
    using assms by (rule dropWhile_Threw_Nil)
  have f: "settled (outs ! i) = Fulfilled" if "i \<in> set (completion_order lat (length outs))" for i
    using that assms by (simp add: completion_order_set)
  have o: "OutOfFuel \<notin> set (map settled outs)"
    using assms by auto
  have ff: "first_failure outs (completion_order lat (length outs)) = Fulfilled"
    using f by (simp add: first_failure_def filter_False)
  have m: "map (\<lambda>i. ItemDone i (error_of (settled (outs ! i)))) (completion_order lat (length outs))
         = map (\<lambda>i. ItemDone i None) (completion_order lat (length outs))"
    using f by (intro map_cong) simp_all
  show ?thesis
    unfolding BPromise_map_def d using o ff m by (simp add: Let_def)
qed

lemma first_failure_Fulfilled:
  assumes "first_failure outs order = Fulfilled"
  shows "\<forall>i\<in>set order. settled (outs ! i) = Fulfilled"
proof (cases "filter (\<lambda>i. settled (outs ! i) \<noteq> Fulfilled) order")
  case Nil
  then show ?thesis by (simp add: filter_empty_conv)
next
  case (Cons i js)
  then have "i \<in> set (filter (\<lambda>i. settled (outs ! i) \<noteq> Fulfilled) order)" by simp
  then have "settled (outs ! i) \<noteq> Fulfilled" by simp
  then show ?thesis using assms Cons by (simp add: first_failure_def)
qed

lemma BPromise_map_Fulfilled_iff:
  "settled (BPromise_map lat outs) = Fulfilled \<longleftrightarrow> (\<forall>p\<in>set outs. settled p = Fulfilled)"
proof
  assume "\<forall>p\<in>set outs. settled p = Fulfilled"
  then show "settled (BPromise_map lat outs) = Fulfilled"
    by (simp add: BPromise_map_all_Fulfilled)
next
  assume a: "settled (BPromise_map lat outs) = Fulfilled"
  show "\<forall>p\<in>set outs. settled p = Fulfilled"
  proof (cases "dropWhile (\<lambda>p. \<not> is_Threw (settled p)) outs")
    case (Cons p ps)
    then have "is_Threw (settled p)"
      using hd_dropWhile [of "\<lambda>p. \<not> is_Threw (settled p)" outs] by simp
    then have "settled (BPromise_map lat outs) \<noteq> Fulfilled"
      unfolding BPromise_map_def Cons by (cases "settled p") simp_all
    then show ?thesis using a by simp
  next
    case Nil
    have o: "OutOfFuel \<notin> set (map settled outs)"
      using a unfolding BPromise_map_def Nil by (auto split: if_splits)
    then have "first_failure outs (completion_order lat (length outs)) = Fulfilled"
      using a unfolding BPromise_map_def Nil by (simp add: Let_def)
    from first_failure_Fulfilled [OF this]
    have "\<forall>i<length outs. settled (outs ! i) = Fulfilled"
      by (simp add: completion_order_set)
    then show ?thesis by (metis in_set_conv_nth)
  qed
qed

lemma scrape_messages_length:
  "scrape_messages parse ms = Inr ds \<Longrightarrow> length ds = length ms"
  by (induction ms arbitrary: ds) (auto split: sum.splits)

lemma BPromise_map_Fulfilled_events:
  assumes "settled (BPromise_map lat outs) = Fulfilled"
  shows "events (BPromise_map lat outs) =
           concat (map events outs) @ map (\<lambda>i. ItemDone i None) (completion_order lat (length outs))"
  using assms BPromise_map_all_Fulfilled [of outs lat] by (simp add: BPromise_map_Fulfilled_iff)

lemma XFPost_archive_latency:
  "XFPost_archive (e\<lparr>latency := l\<rparr>) post = XFPost_archive e post"
  by (simp add: XFPost_archive_def lookup_XFPost db_runAsync_def)

lemma XFThread_scrape_Fulfilled_iff:
  "settled (snd (XFThread_scrape e this doc)) = Fulfilled \<longleftrightarrow>
     (\<exists>ds. scrape_messages (Date_parse e) (messages doc) = Inr ds
         \<and> (\<forall>d\<in>set ds. settled (XFPost_archive e (XFPost_new (post_options_of this d))) = Fulfilled))"
  by (auto simp: XFThread_scrape_def throw_def Let_def BPromise_map_Fulfilled_iff split: sum.splits)

lemma XFForum_scrape_Fulfilled_iff:
  "settled (snd (XFForum_scrape n e this doc)) = Fulfilled \<longleftrightarrow> discussionListItems doc = []"
  by (auto simp: XFForum_scrape.simps Let_def BPromise_map_Fulfilled_iff
      XFThread_archive_never_fulfilled)

lemma scrape_Fulfilled_latency:
  assumes "cls this = XFForum \<or> cls this = XFThread"
  shows "(settled (snd (scrape n (e\<lparr>latency := l\<rparr>) this doc)) = Fulfilled)
       = (settled (snd (scrape n e this doc)) = Fulfilled)"
  using assms
  by (auto simp: scrape_def XFForum_scrape_Fulfilled_iff XFThread_scrape_Fulfilled_iff
      XFPost_archive_latency)

lemma scrape_Fulfilled_events:
  assumes "cls this = XFForum \<or> cls this = XFThread"
    and "settled (snd (scrape n e this doc)) = Fulfilled"
  shows "\<exists>started. events (snd (scrape n e this doc)) =
           started @ map (\<lambda>i. ItemDone i None)
                       (completion_order (latency e (load_url this)) (item_count (cls this) doc))"
  using assms(1)
proof
  assume c: "cls this = XFForum"
  let ?outs = "map (XFThread_archive n e)
                 (map (\<lambda>d. XFThread_new (thread_options this d)) (discussionListItems doc))"
  have s: "snd (scrape n e this doc) = BPromise_map (latency e (load_url this)) ?outs"
    using c by (simp add: scrape_def XFForum_scrape.simps Let_def)
  have "events (BPromise_map (latency e (load_url this)) ?outs) =
          concat (map events ?outs)
          @ map (\<lambda>i. ItemDone i None) (completion_order (latency e (load_url this)) (length ?outs))"
    using assms(2) unfolding s by (rule BPromise_map_Fulfilled_events)
  then show ?thesis
    unfolding s using c by (intro exI [of _ "concat (map events ?outs)"]) (simp add: item_count_def)
next
  assume c: "cls this = XFThread"
  from assms(2) c obtain ds where ds: "scrape_messages (Date_parse e) (messages doc) = Inr ds"
    by (auto simp: scrape_def XFThread_scrape_Fulfilled_iff)
  let ?outs = "map (XFPost_archive e) (map (\<lambda>d. XFPost_new (post_options_of this d)) ds)"
  have s: "snd (scrape n e this doc) = BPromise_map (latency e (load_url this)) ?outs"
    using c ds by (simp add: scrape_def XFThread_scrape_def Let_def)
  have "events (BPromise_map (latency e (load_url this)) ?outs) =
          concat (map events ?outs)
          @ map (\<lambda>i. ItemDone i None) (completion_order (latency e (load_url this)) (length ?outs))"
    using assms(2) unfolding s by (rule BPromise_map_Fulfilled_events)
  then show ?thesis
    unfolding s using c scrape_messages_length [OF ds]
    by (intro exI [of _ "concat (map events ?outs)"]) (simp add: item_count_def)
qed

lemma scrape_Fulfilled_next:
  assumes "cls this = XFForum \<or> cls this = XFThread"
    and "settled (snd (scrape n e this doc)) = Fulfilled"
  shows "fst (scrape n e this doc) = this\<lparr>page := next_page (page this) (pageNav_last doc)\<rparr>"
  using assms by (auto simp: scrape_def XFForum_scrape_next XFThread_scrape_next)

lemma XFPage_archive_starts:
  "\<exists>rest. events (XFPage_archive (Suc m) e this) =
      Archiving (cls this) (url this) (page this) # Get (load_url this) # rest"
proof -
  from XFPage_load_events [of m e this] obtain r
    where "events (snd (XFPage_load m e this)) = Get (load_url this) # r" by blast
  then show ?thesis
    by (simp add: XFPage_archive.simps Let_def then_p_events)
qed

lemma XFPage_archiveNextPage_starts:
  assumes "page this \<noteq> None"
  shows "\<exists>rest. events (XFPage_archiveNextPage (Suc m) e this) =
      Archiving (cls this) (url this) (page this) # Get (load_url this) # rest"
  using assms XFPage_archive_starts [of m e this]
  by (cases "cls this") (auto simp add: XFPage_archiveNextPage.simps XFThread_archive_events)

text \<open>
  C8. For a forum or a thread as its constructor builds it, the pages of the progress
  lines of its class in the events of \<open>archive\<close> are the consecutive integers from the
  start page (the page of the options when it is given and not 0, else 1), each one more
  than the one before, so none occurs twice. Every progress line is directly followed by
  the request of that page, and a thread's own \<open>archive\<close> has the events of the inherited
  one.
\<close>

theorem C8_page_sequence:
  assumes "this = XFForum_new options \<or> this = XFThread_new options"
  shows "(\<exists>k. pages_of (cls this) (events (XFPage_archive n e this))
               = map (\<lambda>i. Some (start_page (opt_page options) + int i)) [0..<k])
       \<and> distinct (pages_of (cls this) (events (XFPage_archive n e this)))
       \<and> events (XFThread_archive n e this) = events (XFPage_archive n e this)
       \<and> (\<forall>m obj. \<exists>rest. events (XFPage_archive (Suc m) e obj) =
              Archiving (cls obj) (url obj) (page obj) # Get (load_url obj) # rest)
       \<and> (opt_page options = None \<longrightarrow> start_page (opt_page options) = 1)
       \<and> (\<forall>q. opt_page options = Some q \<and> q \<noteq> 0 \<longrightarrow> start_page (opt_page options) = q)"
proof -
  let ?p = "start_page (opt_page options)"
  have pg: "page this = Some ?p"
    using assms by (auto simp: XFForum_new_def XFThread_new_def XFPage_new_def)
  have "\<exists>k. pages_of (cls this) (events (XFPage_archive n e this))
               = map (\<lambda>i. Some (?p + int i)) [0..<k]"
    using assms
  proof
    assume "this = XFForum_new options"
    then have c: "cls this = XFForum" by (simp add: XFForum_new_def XFPage_new_def)
    show ?thesis using forum_pages [OF c pg, of n e] by (simp add: c)
  next
    assume "this = XFThread_new options"
    then have c: "cls this = XFThread" by (simp add: XFThread_new_def XFPage_new_def)
    show ?thesis using thread_pages [OF c pg, of XFThread n e] by (simp add: c)
  qed
  then obtain k where k: "pages_of (cls this) (events (XFPage_archive n e this))
               = map (\<lambda>i. Some (?p + int i)) [0..<k]" by blast
  have d: "distinct (pages_of (cls this) (events (XFPage_archive n e this)))"
    unfolding k by (rule distinct_consecutive)
  have s: "(opt_page options = None \<longrightarrow> ?p = 1)
       \<and> (\<forall>q. opt_page options = Some q \<and> q \<noteq> 0 \<longrightarrow> ?p = q)"
    by (simp add: start_page_def)
  have a: "\<forall>m obj. \<exists>rest. events (XFPage_archive (Suc m) e obj) =
              Archiving (cls obj) (url obj) (page obj) # Get (load_url obj) # rest"
    using XFPage_archive_starts by blast
  show ?thesis using k d s a XFThread_archive_events [of n e this] by blast
qed

theorem C8_page_sequence_witness:
  "pages_of XFThread (events (XFPage_archive 3
      (sample_env (sample_thread_page\<lparr>pageNav_last := JNum 2\<rparr>)) sample_thread)) = [Some 1, Some 2]
   \<and> (\<exists>k. pages_of XFThread (events (XFPage_archive 3
      (sample_env (sample_thread_page\<lparr>pageNav_last := JNum 2\<rparr>)) sample_thread))
        = map (\<lambda>i. Some (1 + int i)) [0..<k])"
proof -
  have a: "pages_of XFThread (events (XFPage_archive 3
      (sample_env (sample_thread_page\<lparr>pageNav_last := JNum 2\<rparr>)) sample_thread)) = [Some 1, Some 2]"
    by code_simp
  have c: "cls sample_thread = XFThread"
    by (simp add: sample_thread_def XFThread_new_def XFPage_new_def)
  let ?opts = "thread_options sample_forum \<lparr>href = Some ''threads/a.1/'', link_text = ''A''\<rparr>"
  have h: "sample_thread = XFForum_new ?opts \<or> sample_thread = XFThread_new ?opts"
    by (simp add: sample_thread_def)
  have sp: "start_page (opt_page ?opts) = 1"
    by (simp add: thread_options_def start_page_def)
  from C8_page_sequence [OF h, of 3 "sample_env (sample_thread_page\<lparr>pageNav_last := JNum 2\<rparr>)"]
  have "\<exists>k. pages_of (cls sample_thread) (events (XFPage_archive 3
      (sample_env (sample_thread_page\<lparr>pageNav_last := JNum 2\<rparr>)) sample_thread))
        = map (\<lambda>i. Some (start_page (opt_page ?opts) + int i)) [0..<k]"
    by blast
  then have b: "\<exists>k. pages_of XFThread (events (XFPage_archive 3
      (sample_env (sample_thread_page\<lparr>pageNav_last := JNum 2\<rparr>)) sample_thread))
        = map (\<lambda>i. Some (1 + int i)) [0..<k]"
    unfolding c sp .
  show ?thesis using a b by blast
qed

text \<open>
  C7. For a forum or a thread whose page has been received: the events of one call of
  \<open>archive\<close> are the progress line, the request, the events of \<open>scrape\<close>, and, only when
  the promise of \<open>scrape\<close> is fulfilled, the events of \<open>_archiveNextPage\<close>. When it is
  fulfilled the events of \<open>scrape\<close> end with the completion of every item of the page, in
  the order of the latencies, and the next events, if the object has a further page, are the
  progress line and the request of that page. Whether the promise is fulfilled does not
  depend on the latencies, and every order of the items is the completion order of some
  latencies. For a forum the promise of \<open>scrape\<close> is fulfilled only when the page lists
  no thread, since the \<open>archive\<close> of a thread always throws.
\<close>

theorem C7_items_before_next_page:
  assumes "cls this = XFForum \<or> cls this = XFThread"
    and "needle_get e (load_url this) = Some doc"
    and "s = scrape n e this doc"
  shows "events (XFPage_archive (Suc n) e this) =
           Archiving (cls this) (url this) (page this) # Get (load_url this) # events (snd s)
           @ (if settled (snd s) = Fulfilled then events (XFPage_archiveNextPage n e (fst s)) else [])
       \<and> (settled (snd s) = Fulfilled \<longrightarrow>
            (\<exists>started. events (snd s) =
               started @ map (\<lambda>i. ItemDone i None)
                           (completion_order (latency e (load_url this)) (item_count (cls this) doc))))
       \<and> set (completion_order (latency e (load_url this)) (item_count (cls this) doc))
            = {0..<item_count (cls this) doc}
       \<and> (\<forall>m. n = Suc m \<and> settled (snd s) = Fulfilled \<and> page (fst s) \<noteq> None \<longrightarrow>
            (\<exists>rest. events (XFPage_archiveNextPage n e (fst s)) =
               Archiving (cls this) (url this) (page (fst s)) # Get (load_url (fst s)) # rest))
       \<and> (\<forall>l. (settled (snd (scrape n (e\<lparr>latency := l\<rparr>) this doc)) = Fulfilled)
               = (settled (snd s) = Fulfilled))
       \<and> (\<forall>order. distinct order \<and> set order = {0..<item_count (cls this) doc} \<longrightarrow>
            completion_order (position order) (item_count (cls this) doc) = order)
       \<and> (cls this = XFForum \<longrightarrow>
            (settled (snd s) = Fulfilled) = (discussionListItems doc = []))"
proof -
  have a: "events (XFPage_archive (Suc n) e this) =
           Archiving (cls this) (url this) (page this) # Get (load_url this) # events (snd s)
           @ (if settled (snd s) = Fulfilled then events (XFPage_archiveNextPage n e (fst s)) else [])"
    unfolding assms(3) by (rule XFPage_archive_cycle [OF assms(2)])
  have b: "settled (snd s) = Fulfilled \<longrightarrow>
            (\<exists>started. events (snd s) =
               started @ map (\<lambda>i. ItemDone i None)
                           (completion_order (latency e (load_url this)) (item_count (cls this) doc)))"
    unfolding assms(3) using scrape_Fulfilled_events [OF assms(1)] by blast
  have c: "set (completion_order (latency e (load_url this)) (item_count (cls this) doc))
            = {0..<item_count (cls this) doc}"
    by (rule completion_order_set)
  have d: "\<exists>rest. events (XFPage_archiveNextPage n e (fst s)) =
               Archiving (cls this) (url this) (page (fst s)) # Get (load_url (fst s)) # rest"
    if "n = Suc m" "settled (snd s) = Fulfilled" "page (fst s) \<noteq> None" for m
  proof -
    have "fst s = this\<lparr>page := next_page (page this) (pageNav_last doc)\<rparr>"
      using that(2) unfolding assms(3) by (rule scrape_Fulfilled_next [OF assms(1)])
    then have "cls (fst s) = cls this" "url (fst s) = url this" by simp_all
    then show ?thesis
      using XFPage_archiveNextPage_starts [OF that(3), of m e] that(1) by simp
  qed
  have f: "\<forall>l. (settled (snd (scrape n (e\<lparr>latency := l\<rparr>) this doc)) = Fulfilled)
               = (settled (snd s) = Fulfilled)"
    unfolding assms(3) using scrape_Fulfilled_latency [OF assms(1)] by blast
  have g: "\<forall>order. distinct order \<and> set order = {0..<item_count (cls this) doc} \<longrightarrow>
            completion_order (position order) (item_count (cls this) doc) = order"
    using any_completion_order by blast
  have h: "cls this = XFForum \<longrightarrow>
            (settled (snd s) = Fulfilled) = (discussionListItems doc = [])"
    unfolding assms(3) by (simp add: scrape_def XFForum_scrape_Fulfilled_iff)
  show ?thesis using a b c d f g h by blast
qed

theorem C7_items_before_next_page_witness:
  "events (XFPage_archive (Suc 1)
      ((sample_env \<lparr>discussionListItems = [], messages = [sample_message, sample_message],
                     pageNav_last = JNum 2\<rparr>)\<lparr>latency := \<lambda>u i. 10 - i\<rparr>)
      sample_thread) =
     [Archiving XFThread ''http://h/threads/a.1/'' (Some 1),
      Get ''http://h/threads/a.1/'',
      DbRun sql_threads [(''$title'', JStr ''A''), (''$url'', JUndefined)],
      DbRun sql_threads [(''$title'', JStr ''A''), (''$url'', JUndefined)],
      ItemDone 1 None,
      ItemDone 0 None,
      Archiving XFThread ''http://h/threads/a.1/'' (Some 2),
      Get ''http://h/threads/a.1/page-2'']"
proof -
  let ?doc = "\<lparr>discussionListItems = [], messages = [sample_message, sample_message],
               pageNav_last = JNum 2\<rparr>"
  let ?e = "(sample_env ?doc)\<lparr>latency := \<lambda>u i. 10 - i\<rparr>"
  let ?s = "scrape 1 ?e sample_thread ?doc"
  have c: "cls sample_thread = XFForum \<or> cls sample_thread = XFThread"
    by (simp add: sample_thread_eq)
  have g: "needle_get ?e (load_url sample_thread) = Some ?doc"
    by code_simp
  from C7_items_before_next_page [OF c g refl, of 1]
  have cyc: "events (XFPage_archive (Suc 1) ?e sample_thread) =
           Archiving (cls sample_thread) (url sample_thread) (page sample_thread)
           # Get (load_url sample_thread) # events (snd ?s)
           @ (if settled (snd ?s) = Fulfilled
              then events (XFPage_archiveNextPage 1 ?e (fst ?s)) else [])"
    by blast
  have v: "events (snd ?s) =
        [DbRun sql_threads [(''$title'', JStr ''A''), (''$url'', JUndefined)],
         DbRun sql_threads [(''$title'', JStr ''A''), (''$url'', JUndefined)],
         ItemDone 1 None, ItemDone 0 None]"
    "settled (snd ?s) = Fulfilled"
    "events (XFPage_archiveNextPage 1 ?e (fst ?s)) =
        [Archiving XFThread ''http://h/threads/a.1/'' (Some 2), Get ''http://h/threads/a.1/page-2'']"
    "load_url sample_thread = ''http://h/threads/a.1/''"
    by code_simp+
  show ?thesis
    unfolding cyc v by (simp add: sample_thread_eq)
qed

end
